theory Spec2Isabelle
  imports Main
begin

section \<open>Peer behaviour reporting (p2p/peer\_behaviour.go)\<close>

text \<open>
  The file declares two behaviour vocabularies, the interface \<open>PeerBehaviour\<close>, the
  implementation \<open>SwitchPeerBehaviour\<close> that forwards reports to the Switch, and the
  implementation \<open>StoredPeerBehaviour\<close> that records reports in two maps of slices.
  The type \<open>ID\<close> of peer identities is declared elsewhere in the package; it is a
  type parameter \<open>'id\<close> here.
\<close>

subsection \<open>Behaviour vocabulary\<close>

text \<open>
  \<^verbatim>\<open>type ErrorPeerBehaviour int\<close> and \<^verbatim>\<open>type GoodPeerBehaviour int\<close>: both are
  integer types, and every integer is a value of either. The constants are declared in
  two \<^verbatim>\<open>const\<close> blocks with \<^verbatim>\<open>iota\<close>, which is the index of the constant in its
  block; a constant without an expression repeats the expression of the previous one.
\<close>

type_synonym ErrorPeerBehaviour = int
type_synonym GoodPeerBehaviour = int

definition ErrorPeerBehaviourUnknown :: int where
  "ErrorPeerBehaviourUnknown = 0"

definition ErrorPeerBehaviourBadMessage :: int where
  "ErrorPeerBehaviourBadMessage = 1"

definition ErrorPeerBehaviourMessageOutofOrder :: int where
  "ErrorPeerBehaviourMessageOutofOrder = 2"

definition GoodPeerBehaviourVote :: int where
  "GoodPeerBehaviourVote = 0 + 100"

definition GoodPeerBehaviourBlockPart :: int where
  "GoodPeerBehaviourBlockPart = 1 + 100"

definition error_behaviour_values :: "int list" where
  "error_behaviour_values =
     [ErrorPeerBehaviourUnknown, ErrorPeerBehaviourBadMessage,
      ErrorPeerBehaviourMessageOutofOrder]"

definition good_behaviour_values :: "int list" where
  "good_behaviour_values = [GoodPeerBehaviourVote, GoodPeerBehaviourBlockPart]"

subsection \<open>Slices and their backing arrays\<close>

text \<open>
  A Go slice is a header (pointer to a backing array, length, capacity); two headers
  with the same pointer share their elements. The memory is the list of the backing
  arrays allocated so far, and the address of an array is its position in that list, so
  that an allocation returns an address that no slice holds yet. The program never
  re-slices, so every header points to the start of its array.
\<close>

type_synonym heap = "int list list"

record slice =
  ptr :: nat
  len :: nat
  cap :: nat

definition alloc :: "int list \<Rightarrow> heap \<Rightarrow> nat \<times> heap" where
  "alloc a h = (length h, h @ [a])"

text \<open>\<^verbatim>\<open>make([]T, n)\<close>: a new array of \<open>n\<close> zero values, length and capacity \<open>n\<close>.\<close>

definition make_slice :: "nat \<Rightarrow> heap \<Rightarrow> slice \<times> heap" where
  "make_slice n h =
     (let (a, h') = alloc (replicate n 0) h
      in (\<lparr>ptr = a, len = n, cap = n\<rparr>, h'))"

text \<open>The composite literal \<^verbatim>\<open>[]T{x1, ..., xn}\<close>: a new array holding the listed elements.\<close>

definition slice_lit :: "int list \<Rightarrow> heap \<Rightarrow> slice \<times> heap" where
  "slice_lit xs h =
     (let (a, h') = alloc xs h
      in (\<lparr>ptr = a, len = length xs, cap = length xs\<rparr>, h'))"

text \<open>The elements a slice denotes in a memory: the first \<open>len\<close> cells of its array.\<close>

definition slice_elems :: "heap \<Rightarrow> slice \<Rightarrow> int list" where
  "slice_elems h s = take (len s) (h ! ptr s)"

text \<open>
  \<^verbatim>\<open>copy(dst, src)\<close> copies \<open>min(len(dst), len(src))\<close> elements from the start of
  \<open>src\<close> to the start of \<open>dst\<close>.
\<close>

definition copy_slice :: "slice \<Rightarrow> slice \<Rightarrow> heap \<Rightarrow> heap" where
  "copy_slice dst src h =
     (let n = min (len dst) (len src)
      in h[ptr dst := take n (h ! ptr src) @ drop n (h ! ptr dst)])"

text \<open>
  \<^verbatim>\<open>append(s, v)\<close>: when the capacity allows it, \<open>v\<close> is written into the array of
  \<open>s\<close> just after its last element and the result shares that array; otherwise a new,
  larger array is allocated and the elements are copied to it. How much larger is a
  matter of the Go runtime: the parameter \<open>spare\<close> gives the number of unused cells the
  runtime adds for a slice of the given capacity.
\<close>

definition append_slice :: "(nat \<Rightarrow> nat) \<Rightarrow> slice \<Rightarrow> int \<Rightarrow> heap \<Rightarrow> slice \<times> heap" where
  "append_slice spare s v h =
     (if len s < cap s
      then (s\<lparr>len := len s + 1\<rparr>, h[ptr s := (h ! ptr s)[len s := v]])
      else
        (let k = spare (cap s);
             (a, h') = alloc (slice_elems h s @ [v] @ replicate k 0) h
         in (\<lparr>ptr = a, len = len s + 1, cap = len s + 1 + k\<rparr>, h')))"

text \<open>
  What a caller can do with a slice it holds: the indexed assignment
  \<^verbatim>\<open>s[i] = v\<close>, which panics when \<open>i\<close> is out of range.
\<close>

datatype go_panic = IndexOutOfRange

definition slice_store :: "slice \<Rightarrow> nat \<Rightarrow> int \<Rightarrow> heap \<Rightarrow> go_panic + heap" where
  "slice_store s i v h =
     (if i < len s then Inr (h[ptr s := (h ! ptr s)[i := v]]) else Inl IndexOutOfRange)"

subsection \<open>StoredPeerBehaviour\<close>

text \<open>
  The struct holds the two maps \<open>eb\<close> and \<open>gb\<close>; the record adds the memory in which
  the slices of the maps live. Every method takes the lock for its whole body (the
  writers exclusively), so a method is one step on the state; the lock is not modelled.
  The maps are those made by the constructor, so a map is never nil. The methods
  \<open>Errored\<close> and \<open>Behaved\<close> of this type are \<open>Stored_Errored\<close> and
  \<open>Stored_Behaved\<close>; they return nothing.
\<close>

record 'id StoredPeerBehaviour =
  eb :: "'id \<rightharpoonup> slice"
  gb :: "'id \<rightharpoonup> slice"
  mem :: heap

definition NewStoredPeerBehaviour :: "'id StoredPeerBehaviour" where
  "NewStoredPeerBehaviour = \<lparr>eb = Map.empty, gb = Map.empty, mem = []\<rparr>"

definition Stored_Errored ::
  "(nat \<Rightarrow> nat) \<Rightarrow> 'id \<Rightarrow> ErrorPeerBehaviour \<Rightarrow> 'id StoredPeerBehaviour \<Rightarrow> 'id StoredPeerBehaviour"
where
  "Stored_Errored spare peerID reason spb =
     (case eb spb peerID of
        None \<Rightarrow>
          (let (s, h) = slice_lit [reason] (mem spb)
           in spb\<lparr>eb := (eb spb)(peerID \<mapsto> s), mem := h\<rparr>)
      | Some items \<Rightarrow>
          (let (s, h) = append_slice spare items reason (mem spb)
           in spb\<lparr>eb := (eb spb)(peerID \<mapsto> s), mem := h\<rparr>))"

definition GetErrorBehaviours ::
  "'id \<Rightarrow> 'id StoredPeerBehaviour \<Rightarrow> slice \<times> 'id StoredPeerBehaviour"
where
  "GetErrorBehaviours peerID spb =
     (case eb spb peerID of
        Some items \<Rightarrow>
          (let (result, h) = make_slice (len items) (mem spb);
               h' = copy_slice result items h
           in (result, spb\<lparr>mem := h'\<rparr>))
      | None \<Rightarrow>
          (let (result, h) = slice_lit [] (mem spb)
           in (result, spb\<lparr>mem := h\<rparr>)))"

definition Stored_Behaved ::
  "(nat \<Rightarrow> nat) \<Rightarrow> 'id \<Rightarrow> GoodPeerBehaviour \<Rightarrow> 'id StoredPeerBehaviour \<Rightarrow> 'id StoredPeerBehaviour"
where
  "Stored_Behaved spare peerID reason spb =
     (case gb spb peerID of
        None \<Rightarrow>
          (let (s, h) = slice_lit [reason] (mem spb)
           in spb\<lparr>gb := (gb spb)(peerID \<mapsto> s), mem := h\<rparr>)
      | Some items \<Rightarrow>
          (let (s, h) = append_slice spare items reason (mem spb)
           in spb\<lparr>gb := (gb spb)(peerID \<mapsto> s), mem := h\<rparr>))"

definition GetGoodBehaviours ::
  "'id \<Rightarrow> 'id StoredPeerBehaviour \<Rightarrow> slice \<times> 'id StoredPeerBehaviour"
where
  "GetGoodBehaviours peerID spb =
     (case gb spb peerID of
        Some items \<Rightarrow>
          (let (result, h) = make_slice (len items) (mem spb);
               h' = copy_slice result items h
           in (result, spb\<lparr>mem := h'\<rparr>))
      | None \<Rightarrow>
          (let (result, h) = slice_lit [] (mem spb)
           in (result, spb\<lparr>mem := h\<rparr>)))"

text \<open>What a caller reads in the slice a getter returned.\<close>

definition returned :: "slice \<times> 'id StoredPeerBehaviour \<Rightarrow> int list" where
  "returned r = slice_elems (mem (snd r)) (fst r)"


text \<open>
  Reports as data, to speak of sequences of calls: \<open>issue\<close> makes the call a report
  stands for, \<open>issue_all\<close> makes them in order. \<open>errors_for p\<close> and \<open>goods_for p\<close>
  select from a sequence of reports the reasons reported for \<open>p\<close>, by kind.
\<close>

datatype 'id report = ReportErrored 'id ErrorPeerBehaviour | ReportBehaved 'id GoodPeerBehaviour

fun issue :: "(nat \<Rightarrow> nat) \<Rightarrow> 'id report \<Rightarrow> 'id StoredPeerBehaviour \<Rightarrow> 'id StoredPeerBehaviour" where
  "issue spare (ReportErrored p r) spb = Stored_Errored spare p r spb"
| "issue spare (ReportBehaved p r) spb = Stored_Behaved spare p r spb"

fun issue_all :: "(nat \<Rightarrow> nat) \<Rightarrow> 'id report list \<Rightarrow> 'id StoredPeerBehaviour \<Rightarrow> 'id StoredPeerBehaviour" where
  "issue_all spare [] spb = spb"
| "issue_all spare (r # rs) spb = issue_all spare rs (issue spare r spb)"

fun errors_for :: "'id \<Rightarrow> 'id report list \<Rightarrow> ErrorPeerBehaviour list" where
  "errors_for p [] = []"
| "errors_for p (ReportErrored q r # rs) = (if q = p then r # errors_for p rs else errors_for p rs)"
| "errors_for p (ReportBehaved q r # rs) = errors_for p rs"

fun goods_for :: "'id \<Rightarrow> 'id report list \<Rightarrow> GoodPeerBehaviour list" where
  "goods_for p [] = []"
| "goods_for p (ReportErrored q r # rs) = goods_for p rs"
| "goods_for p (ReportBehaved q r # rs) = (if q = p then r # goods_for p rs else goods_for p rs)"

text \<open>Getter calls as data; \<open>ask_all\<close> makes a sequence of them and drops the results.\<close>

datatype 'id query = AskErrors 'id | AskGoods 'id

fun ask :: "'id query \<Rightarrow> 'id StoredPeerBehaviour \<Rightarrow> slice \<times> 'id StoredPeerBehaviour" where
  "ask (AskErrors p) spb = GetErrorBehaviours p spb"
| "ask (AskGoods p) spb = GetGoodBehaviours p spb"

fun ask_all :: "'id query list \<Rightarrow> 'id StoredPeerBehaviour \<Rightarrow> 'id StoredPeerBehaviour" where
  "ask_all [] spb = spb"
| "ask_all (q # qs) spb = ask_all qs (snd (ask q spb))"

subsection \<open>Well-formed states\<close>

text \<open>
  A slice is well-formed in a memory when its array is allocated and has \<open>cap\<close> cells, of
  which the first \<open>len\<close> are in use. The invariant of the struct: every slice stored
  in \<open>eb\<close> or \<open>gb\<close> is well-formed, and no two entries (of either map) share an array.
  \<open>slots\<close> views the two maps as one, keyed by \<open>Inl p\<close> for \<open>eb\<close> and \<open>Inr p\<close> for
  \<open>gb\<close>. \<open>error_log\<close> and \<open>good_log\<close> are the sequences the maps hold for a
  peer, with no entry read as the empty sequence.
\<close>

definition slice_ok :: "heap \<Rightarrow> slice \<Rightarrow> bool" where
  "slice_ok h s \<longleftrightarrow> ptr s < length h \<and> len s \<le> cap s \<and> cap s = length (h ! ptr s)"

definition slots :: "'id StoredPeerBehaviour \<Rightarrow> ('id + 'id) \<rightharpoonup> slice" where
  "slots spb = case_sum (eb spb) (gb spb)"

definition owned :: "('k \<rightharpoonup> slice) \<Rightarrow> heap \<Rightarrow> bool" where
  "owned m h \<longleftrightarrow>
     (\<forall>k s. m k = Some s \<longrightarrow> slice_ok h s) \<and>
     (\<forall>k k' s t. m k = Some s \<longrightarrow> m k' = Some t \<longrightarrow> ptr s = ptr t \<longrightarrow> k = k')"

definition log_of :: "('k \<rightharpoonup> slice) \<Rightarrow> heap \<Rightarrow> 'k \<Rightarrow> int list" where
  "log_of m h k = (case m k of None \<Rightarrow> [] | Some s \<Rightarrow> slice_elems h s)"

definition spb_inv :: "'id StoredPeerBehaviour \<Rightarrow> bool" where
  "spb_inv spb \<longleftrightarrow> owned (slots spb) (mem spb)"

definition error_log :: "'id StoredPeerBehaviour \<Rightarrow> 'id \<Rightarrow> int list" where
  "error_log spb p = (case eb spb p of None \<Rightarrow> [] | Some s \<Rightarrow> slice_elems (mem spb) s)"

definition good_log :: "'id StoredPeerBehaviour \<Rightarrow> 'id \<Rightarrow> int list" where
  "good_log spb p = (case gb spb p of None \<Rightarrow> [] | Some s \<Rightarrow> slice_elems (mem spb) s)"

text \<open>
  The states the program can be in, with the callers in the picture. A state is reached
  from the constructor by calls of the four methods and by writes of the callers; \<open>E\<close>
  is the set of the arrays the callers hold, which are the arrays of the slices the
  getters returned and the arrays the callers allocated themselves. A caller can change
  the arrays in \<open>E\<close> and allocate, nothing else. \<open>private_to_store\<close> is what stays true
  along the way: the state is well-formed and no array of a stored slice is in \<open>E\<close>.
\<close>

inductive reachable :: "(nat \<Rightarrow> nat) \<Rightarrow> 'id StoredPeerBehaviour \<Rightarrow> nat set \<Rightarrow> bool"
  for spare :: "nat \<Rightarrow> nat"
where
  reach_New: "reachable spare NewStoredPeerBehaviour {}"
| reach_Errored: "reachable spare spb E \<Longrightarrow> reachable spare (Stored_Errored spare p r spb) E"
| reach_Behaved: "reachable spare spb E \<Longrightarrow> reachable spare (Stored_Behaved spare p r spb) E"
| reach_ask:
    "reachable spare spb E \<Longrightarrow>
     reachable spare (snd (ask q spb)) (insert (ptr (fst (ask q spb))) E)"
| reach_caller:
    "reachable spare spb E \<Longrightarrow> length (mem spb) \<le> length h \<Longrightarrow>
     (\<forall>a<length (mem spb). a \<notin> E \<longrightarrow> h ! a = mem spb ! a) \<Longrightarrow>
     reachable spare (spb\<lparr>mem := h\<rparr>) (E \<union> {length (mem spb)..<length h})"

definition private_to_store :: "'id StoredPeerBehaviour \<Rightarrow> nat set \<Rightarrow> bool" where
  "private_to_store spb E \<longleftrightarrow>
     spb_inv spb \<and> (\<forall>a\<in>E. a < length (mem spb)) \<and>
     (\<forall>k s. slots spb k = Some s \<longrightarrow> ptr s \<notin> E)"

text \<open>
  What a caller that holds the slice \<open>s\<close> can do to a memory \<open>h\<close>: it can write to
  the array of \<open>s\<close> and allocate new arrays, and nothing else. \<open>written_through s h h'\<close>
  says that \<open>h'\<close> differs from \<open>h\<close> at most so.
\<close>

definition written_through :: "slice \<Rightarrow> heap \<Rightarrow> heap \<Rightarrow> bool" where
  "written_through s h h' \<longleftrightarrow>
     length h \<le> length h' \<and> (\<forall>a<length h. a \<noteq> ptr s \<longrightarrow> h' ! a = h ! a)"

subsection \<open>SwitchPeerBehaviour\<close>

text \<open>
  Modelled from the spec: the type \<open>Switch\<close> and its methods \<open>Peers().Get\<close>,
  \<open>StopPeerForError\<close> and \<open>MarkPeerAsGood\<close> are declared in other files of the
  package. The record keeps what the specification says of the connection manager: the
  active peer set, in which \<^verbatim>\<open>sw.Peers().Get(peerID)\<close> looks a peer up (nil is
  \<open>None\<close>), and the calls issued on the manager so far, oldest first.
  \<^verbatim>\<open>sw.StopPeerForError(peer, reason)\<close> and \<^verbatim>\<open>sw.MarkPeerAsGood(peer)\<close> are fire and
  forget: each is recorded as issued, with its arguments, and what the manager then does
  to the connection is left open. The type of peers is a parameter.
\<close>

datatype 'peer switch_call =
  CallStopPeerForError 'peer ErrorPeerBehaviour
| CallMarkPeerAsGood 'peer

record ('id, 'peer) Switch =
  peers :: "'id \<rightharpoonup> 'peer"
  issued :: "'peer switch_call list"

definition StopPeerForError ::
  "'peer \<Rightarrow> ErrorPeerBehaviour \<Rightarrow> ('id, 'peer) Switch \<Rightarrow> ('id, 'peer) Switch" where
  "StopPeerForError peer reason s = s\<lparr>issued := issued s @ [CallStopPeerForError peer reason]\<rparr>"

definition MarkPeerAsGood :: "'peer \<Rightarrow> ('id, 'peer) Switch \<Rightarrow> ('id, 'peer) Switch" where
  "MarkPeerAsGood peer s = s\<lparr>issued := issued s @ [CallMarkPeerAsGood peer]\<rparr>"

text \<open>\<^verbatim>\<open>errors.New(text)\<close> makes an error value that carries the text; nil is \<open>None\<close>.\<close>

datatype error = errorString string

definition errors_New :: "string \<Rightarrow> error" where
  "errors_New text = errorString text"

text \<open>
  The struct holds the pointer \<open>sw\<close> to the Switch; the record holds the Switch, and
  a method returns the record with the Switch as the call left it. The methods
  \<open>Errored\<close> and \<open>Behaved\<close> of this type are \<open>Switch_Errored\<close> and
  \<open>Switch_Behaved\<close>.
\<close>

record ('id, 'peer) SwitchPeerBehaviour =
  sw :: "('id, 'peer) Switch"

definition NewSwitchPeerBehaviour :: "('id, 'peer) Switch \<Rightarrow> ('id, 'peer) SwitchPeerBehaviour" where
  "NewSwitchPeerBehaviour s = \<lparr>sw = s\<rparr>"

definition Switch_Errored ::
  "'id \<Rightarrow> ErrorPeerBehaviour \<Rightarrow> ('id, 'peer) SwitchPeerBehaviour
     \<Rightarrow> error option \<times> ('id, 'peer) SwitchPeerBehaviour"
where
  "Switch_Errored peerID reason spb =
     (case peers (sw spb) peerID of
        None \<Rightarrow> (Some (errors_New ''Peer not found''), spb)
      | Some peer \<Rightarrow> (None, spb\<lparr>sw := StopPeerForError peer reason (sw spb)\<rparr>))"

definition Switch_Behaved ::
  "'id \<Rightarrow> GoodPeerBehaviour \<Rightarrow> ('id, 'peer) SwitchPeerBehaviour
     \<Rightarrow> error option \<times> ('id, 'peer) SwitchPeerBehaviour"
where
  "Switch_Behaved peerID reason spb =
     (case peers (sw spb) peerID of
        None \<Rightarrow> (Some (errors_New ''Peer not found''), spb)
      | Some peer \<Rightarrow> (None, spb\<lparr>sw := MarkPeerAsGood peer (sw spb)\<rparr>))"

subsection \<open>Method sets\<close>

text \<open>
  The declared signature of every method of the file: name, parameter types, result
  types. A type implements an interface when its method set has every method of the
  interface, with the same signature.
\<close>

datatype go_type =
  TyID | TyErrorPeerBehaviour | TyGoodPeerBehaviour | TyError | TySlice go_type

datatype method_sig = Method string "go_type list" "go_type list"

definition PeerBehaviour_methods :: "method_sig list" where
  "PeerBehaviour_methods =
     [Method ''Behaved'' [TyID, TyGoodPeerBehaviour] [TyError],
      Method ''Errored'' [TyID, TyErrorPeerBehaviour] [TyError]]"

definition GettablePeerBehaviour_methods :: "method_sig list" where
  "GettablePeerBehaviour_methods =
     [Method ''GetErrorBehaviours'' [TyID] [TySlice TyErrorPeerBehaviour],
      Method ''GetGoodBehaviours'' [TyID] [TySlice TyGoodPeerBehaviour]]"

definition SwitchPeerBehaviour_methods :: "method_sig list" where
  "SwitchPeerBehaviour_methods =
     [Method ''Errored'' [TyID, TyErrorPeerBehaviour] [TyError],
      Method ''Behaved'' [TyID, TyGoodPeerBehaviour] [TyError]]"

definition StoredPeerBehaviour_methods :: "method_sig list" where
  "StoredPeerBehaviour_methods =
     [Method ''Errored'' [TyID, TyErrorPeerBehaviour] [],
      Method ''GetErrorBehaviours'' [TyID] [TySlice TyErrorPeerBehaviour],
      Method ''Behaved'' [TyID, TyGoodPeerBehaviour] [],
      Method ''GetGoodBehaviours'' [TyID] [TySlice TyGoodPeerBehaviour]]"

definition implements :: "method_sig list \<Rightarrow> method_sig list \<Rightarrow> bool" where
  "implements T I \<longleftrightarrow> set I \<subseteq> set T"

section \<open>Properties of the memory model\<close>

lemma slice_ok_alloc: "slice_ok h s \<Longrightarrow> slice_ok (h @ [a]) s"
  by (simp add: slice_ok_def nth_append)

lemma slice_elems_alloc: "ptr s < length h \<Longrightarrow> slice_elems (h @ [a]) s = slice_elems h s"
  by (simp add: slice_elems_def nth_append)

lemma owned_alloc: "owned m h \<Longrightarrow> owned m (h @ [a])"
  unfolding owned_def by (blast intro: slice_ok_alloc)

lemma log_of_alloc: "owned m h \<Longrightarrow> log_of m (h @ [a]) = log_of m h"
  by (auto simp: fun_eq_iff log_of_def owned_def slice_ok_def slice_elems_alloc split: option.splits)

lemma owned_ok: "owned m h \<Longrightarrow> m k = Some s \<Longrightarrow> slice_ok h s"
  unfolding owned_def by blast

lemma owned_inj: "owned m h \<Longrightarrow> m k = Some s \<Longrightarrow> m k' = Some t \<Longrightarrow> ptr s = ptr t \<Longrightarrow> k = k'"
  unfolding owned_def by blast

lemma ownedI:
  assumes "\<And>k s. m k = Some s \<Longrightarrow> slice_ok h s"
    and "\<And>k k' s t. m k = Some s \<Longrightarrow> m k' = Some t \<Longrightarrow> ptr s = ptr t \<Longrightarrow> k = k'"
  shows "owned m h"
  unfolding owned_def using assms by blast

lemma owned_fresh:
  assumes o: "owned m h" and s: "len s \<le> cap s" "cap s = length a" "ptr s = length h"
  shows "owned (m(k \<mapsto> s)) (h @ [a])"
proof (rule ownedI)
  fix j t assume "(m(k \<mapsto> s)) j = Some t"
  then consider "j = k" "t = s" | "j \<noteq> k" "m j = Some t"
    by (auto split: if_splits)
  then show "slice_ok (h @ [a]) t"
  proof cases
    case 1
    with s show ?thesis by (simp add: slice_ok_def)
  next
    case 2
    then show ?thesis using owned_ok [OF o] slice_ok_alloc by blast
  qed
next
  fix j j' t t'
  assume a: "(m(k \<mapsto> s)) j = Some t" "(m(k \<mapsto> s)) j' = Some t'" "ptr t = ptr t'"
  have old: "ptr u < length h" if "m i = Some u" for i u
    using owned_ok [OF o that] by (simp add: slice_ok_def)
  show "j = j'"
  proof (cases "j = k"; cases "j' = k")
    assume "j \<noteq> k" "j' \<noteq> k"
    with a show ?thesis using owned_inj [OF o] by simp
  next
    assume "j = k" "j' \<noteq> k"
    with a s old [of j' t'] show ?thesis by simp
  next
    assume "j \<noteq> k" "j' = k"
    with a s old [of j t] show ?thesis by simp
  qed simp
qed

lemma log_of_fresh:
  assumes o: "owned m h" and s: "ptr s = length h"
  shows "log_of (m(k \<mapsto> s)) (h @ [a]) = (log_of m h)(k := take (len s) a)"
proof
  fix j
  show "log_of (m(k \<mapsto> s)) (h @ [a]) j = ((log_of m h)(k := take (len s) a)) j"
  proof (cases "j = k")
    case True
    then show ?thesis using s by (simp add: log_of_def slice_elems_def)
  next
    case False
    have "log_of m (h @ [a]) j = log_of m h j"
      using log_of_alloc [OF o] by simp
    with False show ?thesis by (simp add: log_of_def)
  qed
qed

lemma owned_inplace:
  assumes o: "owned m h" and k: "m k = Some s" and room: "len s < cap s"
  shows "owned (m(k \<mapsto> s\<lparr>len := len s + 1\<rparr>)) (h[ptr s := (h ! ptr s)[len s := v]])"
    (is "owned ?m ?h")
proof (rule ownedI)
  have ok: "slice_ok ?h t" if "slice_ok h t" for t
    using that by (cases "ptr t = ptr s") (simp_all add: slice_ok_def)
  fix j t assume "?m j = Some t"
  then consider "j = k" "t = s\<lparr>len := len s + 1\<rparr>" | "j \<noteq> k" "m j = Some t"
    by (auto split: if_splits)
  then show "slice_ok ?h t"
  proof cases
    case 1
    with room ok [OF owned_ok [OF o k]] show ?thesis by (simp add: slice_ok_def)
  next
    case 2
    then show ?thesis using ok owned_ok [OF o] by blast
  qed
next
  fix j j' t t'
  assume a: "?m j = Some t" "?m j' = Some t'" "ptr t = ptr t'"
  show "j = j'"
  proof (cases "j = k"; cases "j' = k")
    assume "j \<noteq> k" "j' \<noteq> k"
    with a show ?thesis using owned_inj [OF o] by simp
  next
    assume "j = k" "j' \<noteq> k"
    with a show ?thesis using owned_inj [OF o k, of j' t'] by auto
  next
    assume "j \<noteq> k" "j' = k"
    with a show ?thesis using owned_inj [OF o k, of j t] by auto
  qed simp
qed

lemma log_of_inplace:
  assumes o: "owned m h" and k: "m k = Some s" and room: "len s < cap s"
  shows "log_of (m(k \<mapsto> s\<lparr>len := len s + 1\<rparr>)) (h[ptr s := (h ! ptr s)[len s := v]])
         = (log_of m h)(k := log_of m h k @ [v])"
    (is "log_of ?m ?h = _")
proof
  fix j
  have sk: "ptr s < length h" "len s < length (h ! ptr s)"
    using owned_ok [OF o k] room by (simp_all add: slice_ok_def)
  show "log_of ?m ?h j = ((log_of m h)(k := log_of m h k @ [v])) j"
  proof (cases "j = k")
    case True
    then show ?thesis using k sk
      by (simp add: log_of_def slice_elems_def take_Suc_conv_app_nth)
  next
    case False
    show ?thesis
    proof (cases "m j")
      case None
      with False show ?thesis by (simp add: log_of_def)
    next
      case (Some t)
      with False have "ptr t \<noteq> ptr s" using owned_inj [OF o k Some] by auto
      with False Some show ?thesis by (simp add: log_of_def slice_elems_def)
    qed
  qed
qed

lemma append_slice_owned:
  assumes "owned m h" "m k = Some s" "append_slice spare s v h = (s', h')"
  shows "owned (m(k \<mapsto> s')) h'"
proof (cases "len s < cap s")
  case True
  with assms show ?thesis using owned_inplace [OF assms(1,2) True, of v]
    by (simp add: append_slice_def)
next
  case False
  define a where "a = slice_elems h s @ [v] @ replicate (spare (cap s)) 0"
  have n: "length (slice_elems h s) = len s"
    using owned_ok [OF assms(1,2)] by (simp add: slice_elems_def slice_ok_def)
  have s': "s' = \<lparr>ptr = length h, len = len s + 1, cap = len s + 1 + spare (cap s)\<rparr>"
    and h': "h' = h @ [a]"
    using assms(3) False by (auto simp: append_slice_def alloc_def a_def Let_def)
  show ?thesis
    unfolding h' by (rule owned_fresh [OF assms(1)]) (simp_all add: s' a_def n)
qed

lemma append_slice_log:
  assumes "owned m h" "m k = Some s" "append_slice spare s v h = (s', h')"
  shows "log_of (m(k \<mapsto> s')) h' = (log_of m h)(k := log_of m h k @ [v])"
proof (cases "len s < cap s")
  case True
  with assms show ?thesis using log_of_inplace [OF assms(1,2) True, of v]
    by (simp add: append_slice_def)
next
  case False
  define a where "a = slice_elems h s @ [v] @ replicate (spare (cap s)) 0"
  have n: "length (slice_elems h s) = len s"
    using owned_ok [OF assms(1,2)] by (simp add: slice_elems_def slice_ok_def)
  have s': "s' = \<lparr>ptr = length h, len = len s + 1, cap = len s + 1 + spare (cap s)\<rparr>"
    and h': "h' = h @ [a]"
    using assms(3) False by (auto simp: append_slice_def alloc_def a_def Let_def)
  have "take (len s') a = log_of m h k @ [v]"
    using assms(2) n by (simp add: s' a_def log_of_def)
  then show ?thesis
    unfolding h' using log_of_fresh [OF assms(1), of s' k a] by (simp add: s')
qed

lemma slice_lit_owned:
  assumes "owned m h" "slice_lit xs h = (s', h')"
  shows "owned (m(k \<mapsto> s')) h'"
  using assms owned_fresh [OF assms(1), of s' xs k]
  by (auto simp: slice_lit_def alloc_def)

lemma slice_lit_log:
  assumes "owned m h" "slice_lit xs h = (s', h')"
  shows "log_of (m(k \<mapsto> s')) h' = (log_of m h)(k := xs)"
  using assms log_of_fresh [OF assms(1), of s' k xs]
  by (auto simp: slice_lit_def alloc_def)


lemma owned_agree:
  assumes o: "owned m h" and len: "length h \<le> length h'"
    and same: "\<And>k s. m k = Some s \<Longrightarrow> h' ! ptr s = h ! ptr s"
  shows "owned m h'" and "log_of m h' = log_of m h"
proof -
  show "owned m h'"
  proof (rule ownedI)
    fix k s assume k: "m k = Some s"
    from owned_ok [OF o k] same [OF k] len show "slice_ok h' s"
      by (simp add: slice_ok_def)
  next
    fix k k' s t
    assume "m k = Some s" "m k' = Some t" "ptr s = ptr t"
    then show "k = k'" by (rule owned_inj [OF o])
  qed
  show "log_of m h' = log_of m h"
  proof
    fix k
    show "log_of m h' k = log_of m h k"
      by (cases "m k") (simp_all add: log_of_def slice_elems_def same)
  qed
qed


lemma slice_store_written: "slice_store s i v h = Inr h' \<Longrightarrow> written_through s h h'"
  by (auto simp: slice_store_def written_through_def split: if_splits)

lemma append_slice_written: "append_slice spare s v h = (s', h') \<Longrightarrow> written_through s h h'"
  by (auto simp: append_slice_def written_through_def alloc_def Let_def nth_append split: if_splits)

lemma append_slice_ptr:
  "append_slice spare s v h = (s', h') \<Longrightarrow>
   (ptr s' = ptr s \<or> ptr s' = length h) \<and> length h \<le> length h'"
  by (auto simp: append_slice_def alloc_def Let_def split: if_splits)

lemma slice_lit_ptr:
  "slice_lit xs h = (s', h') \<Longrightarrow> ptr s' = length h \<and> length h \<le> length h'"
  by (auto simp: slice_lit_def alloc_def)

section \<open>Properties of StoredPeerBehaviour\<close>

lemma error_log_slots: "error_log spb p = log_of (slots spb) (mem spb) (Inl p)"
  by (simp add: error_log_def log_of_def slots_def)

lemma good_log_slots: "good_log spb p = log_of (slots spb) (mem spb) (Inr p)"
  by (simp add: good_log_def log_of_def slots_def)

lemma slots_eb_update:
  "slots (spb\<lparr>eb := (eb spb)(p \<mapsto> s), mem := h\<rparr>) = (slots spb)(Inl p \<mapsto> s)"
  by (auto simp: slots_def fun_eq_iff split: sum.splits)

lemma slots_gb_update:
  "slots (spb\<lparr>gb := (gb spb)(p \<mapsto> s), mem := h\<rparr>) = (slots spb)(Inr p \<mapsto> s)"
  by (auto simp: slots_def fun_eq_iff split: sum.splits)

lemma slots_mem_update: "slots (spb\<lparr>mem := h\<rparr>) = slots spb"
  by (simp add: slots_def)

lemma spb_inv_New: "spb_inv NewStoredPeerBehaviour"
  by (simp add: spb_inv_def owned_def slots_def NewStoredPeerBehaviour_def split: sum.splits)

lemma Stored_Errored_step:
  assumes "spb_inv spb"
  shows "spb_inv (Stored_Errored spare p r spb)"
    and "log_of (slots (Stored_Errored spare p r spb)) (mem (Stored_Errored spare p r spb))
         = (log_of (slots spb) (mem spb))(Inl p := log_of (slots spb) (mem spb) (Inl p) @ [r])"
proof -
  let ?m = "slots spb" and ?h = "mem spb"
  have o: "owned ?m ?h" using assms by (simp add: spb_inv_def)
  show "spb_inv (Stored_Errored spare p r spb)"
  proof (cases "eb spb p")
    case None
    obtain s h where l: "slice_lit [r] ?h = (s, h)" by (cases "slice_lit [r] ?h")
    with None slice_lit_owned [OF o l, of "Inl p"] show ?thesis
      by (simp add: Stored_Errored_def spb_inv_def slots_eb_update)
  next
    case (Some items)
    obtain s h where a: "append_slice spare items r ?h = (s, h)"
      by (cases "append_slice spare items r ?h")
    have "?m (Inl p) = Some items" using Some by (simp add: slots_def)
    from append_slice_owned [OF o this a] Some a show ?thesis
      by (simp add: Stored_Errored_def spb_inv_def slots_eb_update)
  qed
  show "log_of (slots (Stored_Errored spare p r spb)) (mem (Stored_Errored spare p r spb))
         = (log_of ?m ?h)(Inl p := log_of ?m ?h (Inl p) @ [r])"
  proof (cases "eb spb p")
    case None
    obtain s h where l: "slice_lit [r] ?h = (s, h)" by (cases "slice_lit [r] ?h")
    have "log_of ?m ?h (Inl p) = []" using None by (simp add: log_of_def slots_def)
    with None slice_lit_log [OF o l, of "Inl p"] l show ?thesis
      by (simp add: Stored_Errored_def slots_eb_update)
  next
    case (Some items)
    obtain s h where a: "append_slice spare items r ?h = (s, h)"
      by (cases "append_slice spare items r ?h")
    have "?m (Inl p) = Some items" using Some by (simp add: slots_def)
    from append_slice_log [OF o this a] Some a show ?thesis
      by (simp add: Stored_Errored_def slots_eb_update)
  qed
qed

lemma Stored_Behaved_step:
  assumes "spb_inv spb"
  shows "spb_inv (Stored_Behaved spare p r spb)"
    and "log_of (slots (Stored_Behaved spare p r spb)) (mem (Stored_Behaved spare p r spb))
         = (log_of (slots spb) (mem spb))(Inr p := log_of (slots spb) (mem spb) (Inr p) @ [r])"
proof -
  let ?m = "slots spb" and ?h = "mem spb"
  have o: "owned ?m ?h" using assms by (simp add: spb_inv_def)
  show "spb_inv (Stored_Behaved spare p r spb)"
  proof (cases "gb spb p")
    case None
    obtain s h where l: "slice_lit [r] ?h = (s, h)" by (cases "slice_lit [r] ?h")
    with None slice_lit_owned [OF o l, of "Inr p"] show ?thesis
      by (simp add: Stored_Behaved_def spb_inv_def slots_gb_update)
  next
    case (Some items)
    obtain s h where a: "append_slice spare items r ?h = (s, h)"
      by (cases "append_slice spare items r ?h")
    have "?m (Inr p) = Some items" using Some by (simp add: slots_def)
    from append_slice_owned [OF o this a] Some a show ?thesis
      by (simp add: Stored_Behaved_def spb_inv_def slots_gb_update)
  qed
  show "log_of (slots (Stored_Behaved spare p r spb)) (mem (Stored_Behaved spare p r spb))
         = (log_of ?m ?h)(Inr p := log_of ?m ?h (Inr p) @ [r])"
  proof (cases "gb spb p")
    case None
    obtain s h where l: "slice_lit [r] ?h = (s, h)" by (cases "slice_lit [r] ?h")
    have "log_of ?m ?h (Inr p) = []" using None by (simp add: log_of_def slots_def)
    with None slice_lit_log [OF o l, of "Inr p"] l show ?thesis
      by (simp add: Stored_Behaved_def slots_gb_update)
  next
    case (Some items)
    obtain s h where a: "append_slice spare items r ?h = (s, h)"
      by (cases "append_slice spare items r ?h")
    have "?m (Inr p) = Some items" using Some by (simp add: slots_def)
    from append_slice_log [OF o this a] Some a show ?thesis
      by (simp add: Stored_Behaved_def slots_gb_update)
  qed
qed

lemma Stored_Errored_logs:
  assumes "spb_inv spb"
  shows "error_log (Stored_Errored spare p r spb) = (error_log spb)(p := error_log spb p @ [r])"
    and "good_log (Stored_Errored spare p r spb) = good_log spb"
proof -
  note step = Stored_Errored_step(2) [OF assms, of spare p r]
  show "error_log (Stored_Errored spare p r spb) = (error_log spb)(p := error_log spb p @ [r])"
  proof
    fix q
    show "error_log (Stored_Errored spare p r spb) q = ((error_log spb)(p := error_log spb p @ [r])) q"
      unfolding error_log_slots by (subst step) simp
  qed
  show "good_log (Stored_Errored spare p r spb) = good_log spb"
  proof
    fix q
    show "good_log (Stored_Errored spare p r spb) q = good_log spb q"
      unfolding good_log_slots by (subst step) simp
  qed
qed

lemma Stored_Behaved_logs:
  assumes "spb_inv spb"
  shows "good_log (Stored_Behaved spare p r spb) = (good_log spb)(p := good_log spb p @ [r])"
    and "error_log (Stored_Behaved spare p r spb) = error_log spb"
proof -
  note step = Stored_Behaved_step(2) [OF assms, of spare p r]
  show "good_log (Stored_Behaved spare p r spb) = (good_log spb)(p := good_log spb p @ [r])"
  proof
    fix q
    show "good_log (Stored_Behaved spare p r spb) q = ((good_log spb)(p := good_log spb p @ [r])) q"
      unfolding good_log_slots by (subst step) simp
  qed
  show "error_log (Stored_Behaved spare p r spb) = error_log spb"
  proof
    fix q
    show "error_log (Stored_Behaved spare p r spb) q = error_log spb q"
      unfolding error_log_slots by (subst step) simp
  qed
qed

lemma issue_all_logs:
  "spb_inv spb \<Longrightarrow>
     spb_inv (issue_all spare rs spb) \<and>
     error_log (issue_all spare rs spb) p = error_log spb p @ errors_for p rs \<and>
     good_log (issue_all spare rs spb) p = good_log spb p @ goods_for p rs"
proof (induction rs arbitrary: spb)
  case Nil
  then show ?case by simp
next
  case (Cons r rs)
  show ?case
  proof (cases r)
    case (ReportErrored q e)
    with Cons.IH [OF Stored_Errored_step(1) [OF Cons.prems, of spare q e]]
    show ?thesis by (simp add: Stored_Errored_logs [OF Cons.prems])
  next
    case (ReportBehaved q g)
    with Cons.IH [OF Stored_Behaved_step(1) [OF Cons.prems, of spare q g]]
    show ?thesis by (simp add: Stored_Behaved_logs [OF Cons.prems])
  qed
qed

lemma copy_into_made:
  "copy_slice \<lparr>ptr = length h, len = n, cap = n\<rparr> items (h @ [replicate n 0])
   = h @ [take (min n (len items)) ((h @ [replicate n 0]) ! ptr items) @ replicate (n - len items) 0]"
  by (simp add: copy_slice_def Let_def min_def)

lemma GetErrorBehaviours_Some:
  "eb spb p = Some items \<Longrightarrow>
   GetErrorBehaviours p spb =
     (\<lparr>ptr = length (mem spb), len = len items, cap = len items\<rparr>,
      spb\<lparr>mem := mem spb @ [take (len items) ((mem spb @ [replicate (len items) 0]) ! ptr items)]\<rparr>)"
  by (simp add: GetErrorBehaviours_def make_slice_def alloc_def copy_into_made)

lemma GetErrorBehaviours_None:
  "eb spb p = None \<Longrightarrow>
   GetErrorBehaviours p spb =
     (\<lparr>ptr = length (mem spb), len = 0, cap = 0\<rparr>, spb\<lparr>mem := mem spb @ [ [] ]\<rparr>)"
  by (simp add: GetErrorBehaviours_def slice_lit_def alloc_def)

lemma GetGoodBehaviours_Some:
  "gb spb p = Some items \<Longrightarrow>
   GetGoodBehaviours p spb =
     (\<lparr>ptr = length (mem spb), len = len items, cap = len items\<rparr>,
      spb\<lparr>mem := mem spb @ [take (len items) ((mem spb @ [replicate (len items) 0]) ! ptr items)]\<rparr>)"
  by (simp add: GetGoodBehaviours_def make_slice_def alloc_def copy_into_made)

lemma GetGoodBehaviours_None:
  "gb spb p = None \<Longrightarrow>
   GetGoodBehaviours p spb =
     (\<lparr>ptr = length (mem spb), len = 0, cap = 0\<rparr>, spb\<lparr>mem := mem spb @ [ [] ]\<rparr>)"
  by (simp add: GetGoodBehaviours_def slice_lit_def alloc_def)

lemma GetErrorBehaviours_returned:
  assumes "spb_inv spb"
  shows "returned (GetErrorBehaviours p spb) = error_log spb p"
proof (cases "eb spb p")
  case None
  then show ?thesis
    by (simp add: GetErrorBehaviours_None returned_def slice_elems_def error_log_def)
next
  case (Some items)
  have "slots spb (Inl p) = Some items" using Some by (simp add: slots_def)
  then have "slice_ok (mem spb) items"
    using assms unfolding spb_inv_def by (rule owned_ok [rotated])
  then have lt: "ptr items < length (mem spb)"
    by (simp add: slice_ok_def)
  have "returned (GetErrorBehaviours p spb) = take (len items) (mem spb ! ptr items)"
    unfolding GetErrorBehaviours_Some [OF Some] returned_def slice_elems_def
    by (simp add: nth_append lt)
  also have "\<dots> = error_log spb p"
    by (simp add: error_log_def Some slice_elems_def)
  finally show ?thesis .
qed

lemma GetGoodBehaviours_returned:
  assumes "spb_inv spb"
  shows "returned (GetGoodBehaviours p spb) = good_log spb p"
proof (cases "gb spb p")
  case None
  then show ?thesis
    by (simp add: GetGoodBehaviours_None returned_def slice_elems_def good_log_def)
next
  case (Some items)
  have "slots spb (Inr p) = Some items" using Some by (simp add: slots_def)
  then have "slice_ok (mem spb) items"
    using assms unfolding spb_inv_def by (rule owned_ok [rotated])
  then have lt: "ptr items < length (mem spb)"
    by (simp add: slice_ok_def)
  have "returned (GetGoodBehaviours p spb) = take (len items) (mem spb ! ptr items)"
    unfolding GetGoodBehaviours_Some [OF Some] returned_def slice_elems_def
    by (simp add: nth_append lt)
  also have "\<dots> = good_log spb p"
    by (simp add: good_log_def Some slice_elems_def)
  finally show ?thesis .
qed

lemma GetErrorBehaviours_frame:
  "eb (snd (GetErrorBehaviours p spb)) = eb spb"
  "gb (snd (GetErrorBehaviours p spb)) = gb spb"
  "ptr (fst (GetErrorBehaviours p spb)) = length (mem spb)"
  "\<exists>a. mem (snd (GetErrorBehaviours p spb)) = mem spb @ [a]"
  by (cases "eb spb p"; simp add: GetErrorBehaviours_None GetErrorBehaviours_Some)+

lemma GetGoodBehaviours_frame:
  "eb (snd (GetGoodBehaviours p spb)) = eb spb"
  "gb (snd (GetGoodBehaviours p spb)) = gb spb"
  "ptr (fst (GetGoodBehaviours p spb)) = length (mem spb)"
  "\<exists>a. mem (snd (GetGoodBehaviours p spb)) = mem spb @ [a]"
  by (cases "gb spb p"; simp add: GetGoodBehaviours_None GetGoodBehaviours_Some)+

lemma ask_frame:
  "eb (snd (ask q spb)) = eb spb"
  "gb (snd (ask q spb)) = gb spb"
  "ptr (fst (ask q spb)) = length (mem spb)"
  "\<exists>a. mem (snd (ask q spb)) = mem spb @ [a]"
  by (cases q; simp add: GetErrorBehaviours_frame GetGoodBehaviours_frame)+

lemma ask_returned:
  "spb_inv spb \<Longrightarrow>
   returned (ask q spb) = (case q of AskErrors p \<Rightarrow> error_log spb p | AskGoods p \<Rightarrow> good_log spb p)"
  by (cases q) (simp_all add: GetErrorBehaviours_returned GetGoodBehaviours_returned)

lemma slots_cong: "eb spb' = eb spb \<Longrightarrow> gb spb' = gb spb \<Longrightarrow> slots spb' = slots spb"
  by (simp add: slots_def)

lemma ask_keeps:
  assumes "spb_inv spb"
  shows "spb_inv (snd (ask q spb))"
    and "error_log (snd (ask q spb)) = error_log spb"
    and "good_log (snd (ask q spb)) = good_log spb"
proof -
  let ?spb' = "snd (ask q spb)"
  obtain a where a: "mem ?spb' = mem spb @ [a]" using ask_frame(4) by blast
  have sl: "slots ?spb' = slots spb" by (rule slots_cong) (rule ask_frame)+
  have o: "owned (slots spb) (mem spb)" using assms by (simp add: spb_inv_def)
  show "spb_inv ?spb'"
    unfolding spb_inv_def sl a by (rule owned_alloc [OF o])
  have l: "log_of (slots ?spb') (mem ?spb') = log_of (slots spb) (mem spb)"
    unfolding sl a by (rule log_of_alloc [OF o])
  show "error_log ?spb' = error_log spb"
    by (rule ext) (simp add: error_log_slots l)
  show "good_log ?spb' = good_log spb"
    by (rule ext) (simp add: good_log_slots l)
qed

lemma ask_all_maps:
  "eb (ask_all qs spb) = eb spb \<and> gb (ask_all qs spb) = gb spb \<and>
   take (length (mem spb)) (mem (ask_all qs spb)) = mem spb"
proof (induction qs arbitrary: spb)
  case Nil
  show ?case by simp
next
  case (Cons q qs)
  obtain a where a: "mem (snd (ask q spb)) = mem spb @ [a]" using ask_frame(4) by blast
  have "take (length (mem spb)) (mem (ask_all qs (snd (ask q spb))))
        = take (length (mem spb)) (take (length (mem (snd (ask q spb)))) (mem (ask_all qs (snd (ask q spb)))))"
    by (simp add: a min_def)
  also have "\<dots> = mem spb"
    using Cons.IH [of "snd (ask q spb)"] by (simp add: a)
  finally show ?case
    using Cons.IH [of "snd (ask q spb)"] by (simp add: ask_frame)
qed

lemma ask_all_keeps:
  "spb_inv spb \<Longrightarrow>
   spb_inv (ask_all qs spb) \<and> error_log (ask_all qs spb) = error_log spb \<and>
   good_log (ask_all qs spb) = good_log spb"
proof (induction qs arbitrary: spb)
  case Nil
  then show ?case by simp
next
  case (Cons q qs)
  from Cons.IH [OF ask_keeps(1) [OF Cons.prems, of q]] show ?case
    by (simp add: ask_keeps(2,3) [OF Cons.prems])
qed

lemma written_through_keeps:
  assumes inv: "spb_inv spb"
    and eb: "eb spb' = eb spb" and gb: "gb spb' = gb spb"
    and mem: "mem spb' = mem spb @ [a]"
    and w: "written_through r (mem spb') h" and r: "ptr r = length (mem spb)"
  shows "spb_inv (spb'\<lparr>mem := h\<rparr>)"
    and "error_log (spb'\<lparr>mem := h\<rparr>) = error_log spb"
    and "good_log (spb'\<lparr>mem := h\<rparr>) = good_log spb"
proof -
  let ?m = "slots spb"
  have o: "owned ?m (mem spb)" using inv by (simp add: spb_inv_def)
  have sl: "slots (spb'\<lparr>mem := h\<rparr>) = ?m" by (simp add: slots_def eb gb)
  have len: "length (mem spb) \<le> length h"
    using w by (simp add: written_through_def mem)
  have same: "h ! ptr s = mem spb ! ptr s" if "?m k = Some s" for k s
  proof -
    have lt: "ptr s < length (mem spb)"
      using owned_ok [OF o that] by (simp add: slice_ok_def)
    then have "h ! ptr s = mem spb' ! ptr s"
      using w r by (simp add: written_through_def mem)
    then show ?thesis using lt by (simp add: mem nth_append)
  qed
  note agree = owned_agree [OF o len same]
  show "spb_inv (spb'\<lparr>mem := h\<rparr>)"
    unfolding spb_inv_def sl using agree(1) by simp
  have l: "log_of (slots (spb'\<lparr>mem := h\<rparr>)) (mem (spb'\<lparr>mem := h\<rparr>)) = log_of ?m (mem spb)"
    unfolding sl using agree(2) by simp
  show "error_log (spb'\<lparr>mem := h\<rparr>) = error_log spb"
    by (rule ext) (simp only: error_log_slots l)
  show "good_log (spb'\<lparr>mem := h\<rparr>) = good_log spb"
    by (rule ext) (simp only: good_log_slots l)
qed

text \<open>
  Every reachable state is well-formed, whatever the callers wrote in between, and a
  write of a caller changes no log.
\<close>

lemma Stored_Errored_ptrs:
  "length (mem spb) \<le> length (mem (Stored_Errored spare p r spb))"
  "slots (Stored_Errored spare p r spb) k = Some s \<Longrightarrow>
   (\<exists>s'. slots spb k = Some s' \<and> ptr s' = ptr s) \<or> ptr s = length (mem spb)"
proof -
  show "length (mem spb) \<le> length (mem (Stored_Errored spare p r spb))"
  proof (cases "eb spb p")
    case None
    obtain t h where l: "slice_lit [r] (mem spb) = (t, h)" by (cases "slice_lit [r] (mem spb)")
    with None slice_lit_ptr [OF l] show ?thesis by (simp add: Stored_Errored_def)
  next
    case (Some items)
    obtain t h where a: "append_slice spare items r (mem spb) = (t, h)"
      by (cases "append_slice spare items r (mem spb)")
    with Some append_slice_ptr [OF a] show ?thesis by (simp add: Stored_Errored_def)
  qed
  assume k: "slots (Stored_Errored spare p r spb) k = Some s"
  show "(\<exists>s'. slots spb k = Some s' \<and> ptr s' = ptr s) \<or> ptr s = length (mem spb)"
  proof (cases "eb spb p")
    case None
    obtain t h where l: "slice_lit [r] (mem spb) = (t, h)" by (cases "slice_lit [r] (mem spb)")
    with None k slice_lit_ptr [OF l] show ?thesis
      by (auto simp: Stored_Errored_def slots_eb_update split: if_splits)
  next
    case (Some items)
    obtain t h where a: "append_slice spare items r (mem spb) = (t, h)"
      by (cases "append_slice spare items r (mem spb)")
    have "slots spb (Inl p) = Some items" using Some by (simp add: slots_def)
    with Some k a append_slice_ptr [OF a] show ?thesis
      by (auto simp: Stored_Errored_def slots_eb_update split: if_splits)
  qed
qed

lemma Stored_Behaved_ptrs:
  "length (mem spb) \<le> length (mem (Stored_Behaved spare p r spb))"
  "slots (Stored_Behaved spare p r spb) k = Some s \<Longrightarrow>
   (\<exists>s'. slots spb k = Some s' \<and> ptr s' = ptr s) \<or> ptr s = length (mem spb)"
proof -
  show "length (mem spb) \<le> length (mem (Stored_Behaved spare p r spb))"
  proof (cases "gb spb p")
    case None
    obtain t h where l: "slice_lit [r] (mem spb) = (t, h)" by (cases "slice_lit [r] (mem spb)")
    with None slice_lit_ptr [OF l] show ?thesis by (simp add: Stored_Behaved_def)
  next
    case (Some items)
    obtain t h where a: "append_slice spare items r (mem spb) = (t, h)"
      by (cases "append_slice spare items r (mem spb)")
    with Some append_slice_ptr [OF a] show ?thesis by (simp add: Stored_Behaved_def)
  qed
  assume k: "slots (Stored_Behaved spare p r spb) k = Some s"
  show "(\<exists>s'. slots spb k = Some s' \<and> ptr s' = ptr s) \<or> ptr s = length (mem spb)"
  proof (cases "gb spb p")
    case None
    obtain t h where l: "slice_lit [r] (mem spb) = (t, h)" by (cases "slice_lit [r] (mem spb)")
    with None k slice_lit_ptr [OF l] show ?thesis
      by (auto simp: Stored_Behaved_def slots_gb_update split: if_splits)
  next
    case (Some items)
    obtain t h where a: "append_slice spare items r (mem spb) = (t, h)"
      by (cases "append_slice spare items r (mem spb)")
    have "slots spb (Inr p) = Some items" using Some by (simp add: slots_def)
    with Some k a append_slice_ptr [OF a] show ?thesis
      by (auto simp: Stored_Behaved_def slots_gb_update split: if_splits)
  qed
qed

lemma private_step:
  assumes P: "private_to_store spb E" and inv': "spb_inv spb'"
    and len: "length (mem spb) \<le> length (mem spb')"
    and ptrs: "\<And>k s. slots spb' k = Some s \<Longrightarrow>
        (\<exists>s'. slots spb k = Some s' \<and> ptr s' = ptr s) \<or> ptr s = length (mem spb)"
  shows "private_to_store spb' E"
  unfolding private_to_store_def
proof (intro conjI allI impI ballI)
  show "spb_inv spb'" by (rule inv')
next
  fix a assume "a \<in> E"
  with P len show "a < length (mem spb')" by (auto simp: private_to_store_def)
next
  fix k s assume "slots spb' k = Some s"
  from ptrs [OF this] show "ptr s \<notin> E"
  proof
    assume "\<exists>s'. slots spb k = Some s' \<and> ptr s' = ptr s"
    then obtain s' where s': "slots spb k = Some s'" "ptr s' = ptr s" by blast
    have "ptr s' \<notin> E" using P s'(1) unfolding private_to_store_def by blast
    then show ?thesis by (simp add: s'(2))
  next
    assume "ptr s = length (mem spb)"
    with P show ?thesis by (auto simp: private_to_store_def)
  qed
qed

lemma caller_write_keeps:
  assumes P: "private_to_store spb E" and len: "length (mem spb) \<le> length h"
    and w: "\<forall>a<length (mem spb). a \<notin> E \<longrightarrow> h ! a = mem spb ! a"
  shows "private_to_store (spb\<lparr>mem := h\<rparr>) (E \<union> {length (mem spb)..<length h})"
    and "error_log (spb\<lparr>mem := h\<rparr>) = error_log spb"
    and "good_log (spb\<lparr>mem := h\<rparr>) = good_log spb"
proof -
  let ?m = "slots spb"
  have o: "owned ?m (mem spb)" using P by (simp add: private_to_store_def spb_inv_def)
  have lt: "ptr s < length (mem spb)" and notE: "ptr s \<notin> E" if "?m k = Some s" for k s
    using owned_ok [OF o that] P that by (auto simp: slice_ok_def private_to_store_def)
  have same: "h ! ptr s = mem spb ! ptr s" if "?m k = Some s" for k s
    using w lt [OF that] notE [OF that] by simp
  note agree = owned_agree [OF o len same]
  show "private_to_store (spb\<lparr>mem := h\<rparr>) (E \<union> {length (mem spb)..<length h})"
    unfolding private_to_store_def
  proof (intro conjI allI impI ballI)
    show "spb_inv (spb\<lparr>mem := h\<rparr>)"
      using agree(1) by (simp add: spb_inv_def slots_mem_update)
  next
    fix a assume "a \<in> E \<union> {length (mem spb)..<length h}"
    with P len show "a < length (mem (spb\<lparr>mem := h\<rparr>))"
      by (auto simp: private_to_store_def)
  next
    fix k s assume "slots (spb\<lparr>mem := h\<rparr>) k = Some s"
    then have "?m k = Some s" by (simp add: slots_mem_update)
    from lt [OF this] notE [OF this]
    show "ptr s \<notin> E \<union> {length (mem spb)..<length h}" by simp
  qed
  have l: "log_of (slots (spb\<lparr>mem := h\<rparr>)) (mem (spb\<lparr>mem := h\<rparr>)) = log_of ?m (mem spb)"
    using agree(2) by (simp add: slots_mem_update)
  show "error_log (spb\<lparr>mem := h\<rparr>) = error_log spb"
    by (rule ext) (simp only: error_log_slots l)
  show "good_log (spb\<lparr>mem := h\<rparr>) = good_log spb"
    by (rule ext) (simp only: good_log_slots l)
qed

lemma reachable_private: "reachable spare spb E \<Longrightarrow> private_to_store spb E"
proof (induction rule: reachable.induct)
  case reach_New
  show ?case using spb_inv_New
    by (simp add: private_to_store_def slots_def NewStoredPeerBehaviour_def split: sum.splits)
next
  case (reach_Errored spb E p r)
  then have inv: "spb_inv spb" by (simp add: private_to_store_def)
  show ?case
    by (rule private_step [OF reach_Errored.IH Stored_Errored_step(1) [OF inv]
          Stored_Errored_ptrs(1)]) (rule Stored_Errored_ptrs(2))
next
  case (reach_Behaved spb E p r)
  then have inv: "spb_inv spb" by (simp add: private_to_store_def)
  show ?case
    by (rule private_step [OF reach_Behaved.IH Stored_Behaved_step(1) [OF inv]
          Stored_Behaved_ptrs(1)]) (rule Stored_Behaved_ptrs(2))
next
  case (reach_ask spb E q)
  note P = reach_ask.IH
  then have inv: "spb_inv spb" by (simp add: private_to_store_def)
  obtain a where a: "mem (snd (ask q spb)) = mem spb @ [a]" using ask_frame(4) [of q spb] by blast
  have sl: "slots (snd (ask q spb)) = slots spb" by (rule slots_cong) (rule ask_frame)+
  have lt: "ptr s < length (mem spb)" if "slots spb k = Some s" for k s
    using owned_ok [of "slots spb" "mem spb" k s] that inv by (simp add: spb_inv_def slice_ok_def)
  show ?case
    unfolding private_to_store_def
  proof (intro conjI allI impI ballI)
    show "spb_inv (snd (ask q spb))" by (rule ask_keeps(1) [OF inv])
  next
    fix b assume "b \<in> insert (ptr (fst (ask q spb))) E"
    with P show "b < length (mem (snd (ask q spb)))"
      by (auto simp: private_to_store_def a ask_frame(3))
  next
    fix k s assume "slots (snd (ask q spb)) k = Some s"
    then have k: "slots spb k = Some s" by (simp add: sl)
    with P lt [OF k] show "ptr s \<notin> insert (ptr (fst (ask q spb))) E"
      by (auto simp: private_to_store_def ask_frame(3))
  qed
next
  case (reach_caller spb E h)
  show ?case by (rule caller_write_keeps(1) [OF reach_caller.IH reach_caller.hyps(2,3)])
qed

lemma reachable_inv: "reachable spare spb E \<Longrightarrow> spb_inv spb"
  using reachable_private by (auto simp: private_to_store_def)

section \<open>The claims\<close>

text \<open>
  C1. For every peer \<open>p\<close> and every finite sequence \<open>rs\<close> of Errored and Behaved
  reports issued against a fresh StoredPeerBehaviour, \<open>GetErrorBehaviours p\<close> returns
  exactly the reasons of the Errored reports for \<open>p\<close>, in the order of issue, and
  \<open>GetGoodBehaviours p\<close> exactly those of the Behaved reports for \<open>p\<close>; neither
  holds a report of the other kind. This holds whatever spare capacity the runtime gives.
\<close>

theorem stored_getters_return_reports:
  "returned (GetErrorBehaviours p (issue_all spare rs NewStoredPeerBehaviour)) = errors_for p rs \<and>
   returned (GetGoodBehaviours p (issue_all spare rs NewStoredPeerBehaviour)) = goods_for p rs"
  using issue_all_logs [OF spb_inv_New, of spare rs p]
  by (simp add: GetErrorBehaviours_returned GetGoodBehaviours_returned error_log_def good_log_def
      NewStoredPeerBehaviour_def)

text \<open>
  The scenario of the specification, with peers \<open>''p1''\<close> and \<open>''p2''\<close> and a runtime
  that adds as many spare cells as the old capacity.
\<close>

theorem stored_getters_return_reports_witness:
  "returned (GetErrorBehaviours ''p1'' (issue_all (\<lambda>c. c)
      [ReportErrored ''p1'' ErrorPeerBehaviourMessageOutofOrder,
       ReportBehaved ''p1'' GoodPeerBehaviourVote,
       ReportErrored ''p1'' ErrorPeerBehaviourBadMessage] NewStoredPeerBehaviour))
     = [ErrorPeerBehaviourMessageOutofOrder, ErrorPeerBehaviourBadMessage] \<and>
   returned (GetGoodBehaviours ''p1'' (issue_all (\<lambda>c. c)
      [ReportErrored ''p1'' ErrorPeerBehaviourMessageOutofOrder,
       ReportBehaved ''p1'' GoodPeerBehaviourVote,
       ReportErrored ''p1'' ErrorPeerBehaviourBadMessage] NewStoredPeerBehaviour))
     = [GoodPeerBehaviourVote] \<and>
   returned (GetErrorBehaviours ''p2'' (issue_all (\<lambda>c. c)
      [ReportErrored ''p1'' ErrorPeerBehaviourMessageOutofOrder,
       ReportBehaved ''p1'' GoodPeerBehaviourVote,
       ReportErrored ''p1'' ErrorPeerBehaviourBadMessage] NewStoredPeerBehaviour))
     = []"
  using stored_getters_return_reports [of "''p1''" "\<lambda>c. c"
      "[ReportErrored ''p1'' ErrorPeerBehaviourMessageOutofOrder,
        ReportBehaved ''p1'' GoodPeerBehaviourVote,
        ReportErrored ''p1'' ErrorPeerBehaviourBadMessage]"]
    stored_getters_return_reports [of "''p2''" "\<lambda>c. c"
      "[ReportErrored ''p1'' ErrorPeerBehaviourMessageOutofOrder,
        ReportBehaved ''p1'' GoodPeerBehaviourVote,
        ReportErrored ''p1'' ErrorPeerBehaviourBadMessage]"]
  by simp

text \<open>
  C2. For a peer that the Switch's peer set holds, \<open>Errored\<close> of SwitchPeerBehaviour
  issues exactly one call \<open>StopPeerForError\<close> on the Switch, for that peer and with the
  reported reason as the cause, and returns nil; \<open>Behaved\<close> issues exactly one call
  \<open>MarkPeerAsGood\<close> for that peer and returns nil. Nothing else of the state changes.
\<close>

theorem switch_known_peer:
  "peers (sw spb) p = Some peer \<Longrightarrow>
   Switch_Errored p reason spb =
     (None, spb\<lparr>sw := (sw spb)\<lparr>issued := issued (sw spb) @ [CallStopPeerForError peer reason]\<rparr>\<rparr>) \<and>
   Switch_Behaved p good spb =
     (None, spb\<lparr>sw := (sw spb)\<lparr>issued := issued (sw spb) @ [CallMarkPeerAsGood peer]\<rparr>\<rparr>)"
  by (simp add: Switch_Errored_def Switch_Behaved_def StopPeerForError_def MarkPeerAsGood_def)

theorem switch_known_peer_witness:
  "peers (sw (NewSwitchPeerBehaviour \<lparr>peers = [''p1'' \<mapsto> (7::nat)], issued = []\<rparr>)) ''p1'' = Some 7 \<and>
   fst (Switch_Errored ''p1'' ErrorPeerBehaviourBadMessage
          (NewSwitchPeerBehaviour \<lparr>peers = [''p1'' \<mapsto> (7::nat)], issued = []\<rparr>)) = None \<and>
   issued (sw (snd (Switch_Errored ''p1'' ErrorPeerBehaviourBadMessage
          (NewSwitchPeerBehaviour \<lparr>peers = [''p1'' \<mapsto> (7::nat)], issued = []\<rparr>))))
     = [CallStopPeerForError 7 ErrorPeerBehaviourBadMessage] \<and>
   fst (Switch_Behaved ''p1'' GoodPeerBehaviourVote
          (NewSwitchPeerBehaviour \<lparr>peers = [''p1'' \<mapsto> (7::nat)], issued = []\<rparr>)) = None \<and>
   issued (sw (snd (Switch_Behaved ''p1'' GoodPeerBehaviourVote
          (NewSwitchPeerBehaviour \<lparr>peers = [''p1'' \<mapsto> (7::nat)], issued = []\<rparr>))))
     = [CallMarkPeerAsGood 7]"
  using switch_known_peer [of "NewSwitchPeerBehaviour \<lparr>peers = [''p1'' \<mapsto> (7::nat)], issued = []\<rparr>"
      "''p1''" 7 ErrorPeerBehaviourBadMessage GoodPeerBehaviourVote]
  by (simp add: NewSwitchPeerBehaviour_def)

text \<open>
  C3. For a peer that the Switch's peer set does not hold, \<open>Errored\<close> and \<open>Behaved\<close>
  of SwitchPeerBehaviour return the error "Peer not found" and leave the state as it was:
  no call is issued on the Switch.
\<close>

theorem switch_unknown_peer:
  "peers (sw spb) p = None \<Longrightarrow>
   Switch_Errored p reason spb = (Some (errors_New ''Peer not found''), spb) \<and>
   Switch_Behaved p good spb = (Some (errors_New ''Peer not found''), spb)"
  by (simp add: Switch_Errored_def Switch_Behaved_def)

theorem switch_unknown_peer_witness:
  "peers (sw (NewSwitchPeerBehaviour \<lparr>peers = [''p1'' \<mapsto> (7::nat)], issued = []\<rparr>)) ''p2'' = None \<and>
   Switch_Errored ''p2'' ErrorPeerBehaviourBadMessage
       (NewSwitchPeerBehaviour \<lparr>peers = [''p1'' \<mapsto> (7::nat)], issued = []\<rparr>)
     = (Some (errorString ''Peer not found''),
        NewSwitchPeerBehaviour \<lparr>peers = [''p1'' \<mapsto> (7::nat)], issued = []\<rparr>) \<and>
   issued (sw (snd (Switch_Behaved ''p2'' GoodPeerBehaviourVote
       (NewSwitchPeerBehaviour \<lparr>peers = [''p1'' \<mapsto> (7::nat)], issued = []\<rparr>)))) = []"
  using switch_unknown_peer [of "NewSwitchPeerBehaviour \<lparr>peers = [''p1'' \<mapsto> (7::nat)], issued = []\<rparr>"
      "''p2''" ErrorPeerBehaviourBadMessage GoodPeerBehaviourVote]
  by (simp add: NewSwitchPeerBehaviour_def errors_New_def)

text \<open>
  C4. The claim is that both SwitchPeerBehaviour and StoredPeerBehaviour implement the
  interface PeerBehaviour, whose methods \<open>Behaved\<close> and \<open>Errored\<close> return an error.
  By the declared signatures, SwitchPeerBehaviour implements PeerBehaviour and
  StoredPeerBehaviour implements GettablePeerBehaviour, but StoredPeerBehaviour does not
  implement PeerBehaviour: its \<open>Errored\<close> and \<open>Behaved\<close> are declared without a result.
\<close>

theorem stored_does_not_implement_PeerBehaviour:
  "implements SwitchPeerBehaviour_methods PeerBehaviour_methods \<and>
   implements StoredPeerBehaviour_methods GettablePeerBehaviour_methods \<and>
   \<not> implements StoredPeerBehaviour_methods PeerBehaviour_methods"
  by (simp add: implements_def SwitchPeerBehaviour_methods_def PeerBehaviour_methods_def
      StoredPeerBehaviour_methods_def GettablePeerBehaviour_methods_def)

text \<open>
  C5. In every well-formed state (every reachable state is one, by \<open>reachable_inv\<close>)
  and for every peer \<open>p\<close>, the slice a getter returns is a copy of the stored log: it
  holds exactly the log stored for \<open>p\<close>, and whatever a caller then writes through it
  (to its array, or to arrays allocated later), the stored logs of every peer, of both
  kinds, are what they were, the state stays well-formed, every getter for every peer
  \<open>q\<close> still returns the stored log, and the same getter called again for \<open>p\<close> returns
  the content it returned the first time.
\<close>

theorem returned_slice_is_a_copy:
  assumes "spb_inv spb"
  shows
   "returned (GetErrorBehaviours p spb) = error_log spb p \<and>
    returned (GetGoodBehaviours p spb) = good_log spb p \<and>
    (written_through (fst (GetErrorBehaviours p spb)) (mem (snd (GetErrorBehaviours p spb))) h \<longrightarrow>
       spb_inv (snd (GetErrorBehaviours p spb)\<lparr>mem := h\<rparr>) \<and>
       error_log (snd (GetErrorBehaviours p spb)\<lparr>mem := h\<rparr>) = error_log spb \<and>
       good_log (snd (GetErrorBehaviours p spb)\<lparr>mem := h\<rparr>) = good_log spb \<and>
       returned (GetErrorBehaviours q (snd (GetErrorBehaviours p spb)\<lparr>mem := h\<rparr>))
         = error_log spb q \<and>
       returned (GetGoodBehaviours q (snd (GetErrorBehaviours p spb)\<lparr>mem := h\<rparr>))
         = good_log spb q \<and>
       returned (GetErrorBehaviours p (snd (GetErrorBehaviours p spb)\<lparr>mem := h\<rparr>))
         = returned (GetErrorBehaviours p spb)) \<and>
    (written_through (fst (GetGoodBehaviours p spb)) (mem (snd (GetGoodBehaviours p spb))) h \<longrightarrow>
       spb_inv (snd (GetGoodBehaviours p spb)\<lparr>mem := h\<rparr>) \<and>
       error_log (snd (GetGoodBehaviours p spb)\<lparr>mem := h\<rparr>) = error_log spb \<and>
       good_log (snd (GetGoodBehaviours p spb)\<lparr>mem := h\<rparr>) = good_log spb \<and>
       returned (GetErrorBehaviours q (snd (GetGoodBehaviours p spb)\<lparr>mem := h\<rparr>))
         = error_log spb q \<and>
       returned (GetGoodBehaviours q (snd (GetGoodBehaviours p spb)\<lparr>mem := h\<rparr>))
         = good_log spb q \<and>
       returned (GetGoodBehaviours p (snd (GetGoodBehaviours p spb)\<lparr>mem := h\<rparr>))
         = returned (GetGoodBehaviours p spb))"
proof -
  note re = GetErrorBehaviours_returned [OF assms] and rg = GetGoodBehaviours_returned [OF assms]
  have e: "spb_inv (snd (GetErrorBehaviours p spb)\<lparr>mem := h\<rparr>) \<and>
       error_log (snd (GetErrorBehaviours p spb)\<lparr>mem := h\<rparr>) = error_log spb \<and>
       good_log (snd (GetErrorBehaviours p spb)\<lparr>mem := h\<rparr>) = good_log spb \<and>
       returned (GetErrorBehaviours q (snd (GetErrorBehaviours p spb)\<lparr>mem := h\<rparr>))
         = error_log spb q \<and>
       returned (GetGoodBehaviours q (snd (GetErrorBehaviours p spb)\<lparr>mem := h\<rparr>))
         = good_log spb q \<and>
       returned (GetErrorBehaviours p (snd (GetErrorBehaviours p spb)\<lparr>mem := h\<rparr>))
         = returned (GetErrorBehaviours p spb)"
    if w: "written_through (fst (GetErrorBehaviours p spb)) (mem (snd (GetErrorBehaviours p spb))) h"
  proof -
    obtain a where a: "mem (snd (GetErrorBehaviours p spb)) = mem spb @ [a]"
      using GetErrorBehaviours_frame(4) [of p spb] by blast
    note k = written_through_keeps
      [OF assms GetErrorBehaviours_frame(1,2) a w GetErrorBehaviours_frame(3)]
    show ?thesis
      by (simp add: k GetErrorBehaviours_returned [OF k(1)] GetGoodBehaviours_returned [OF k(1)] re)
  qed
  have g: "spb_inv (snd (GetGoodBehaviours p spb)\<lparr>mem := h\<rparr>) \<and>
       error_log (snd (GetGoodBehaviours p spb)\<lparr>mem := h\<rparr>) = error_log spb \<and>
       good_log (snd (GetGoodBehaviours p spb)\<lparr>mem := h\<rparr>) = good_log spb \<and>
       returned (GetErrorBehaviours q (snd (GetGoodBehaviours p spb)\<lparr>mem := h\<rparr>))
         = error_log spb q \<and>
       returned (GetGoodBehaviours q (snd (GetGoodBehaviours p spb)\<lparr>mem := h\<rparr>))
         = good_log spb q \<and>
       returned (GetGoodBehaviours p (snd (GetGoodBehaviours p spb)\<lparr>mem := h\<rparr>))
         = returned (GetGoodBehaviours p spb)"
    if w: "written_through (fst (GetGoodBehaviours p spb)) (mem (snd (GetGoodBehaviours p spb))) h"
  proof -
    obtain a where a: "mem (snd (GetGoodBehaviours p spb)) = mem spb @ [a]"
      using GetGoodBehaviours_frame(4) [of p spb] by blast
    note k = written_through_keeps
      [OF assms GetGoodBehaviours_frame(1,2) a w GetGoodBehaviours_frame(3)]
    show ?thesis
      by (simp add: k GetErrorBehaviours_returned [OF k(1)] GetGoodBehaviours_returned [OF k(1)] rg)
  qed
  from re rg e g show ?thesis by blast
qed

text \<open>
  At a state with the log \<open>[2]\<close> for \<open>''p1''\<close>: the getter returns \<open>[2]\<close> in a new
  array, the caller overwrites the element with \<open>99\<close>, and the stored log and the next
  read are still \<open>[2]\<close>.
\<close>

theorem returned_slice_is_a_copy_witness:
  "spb_inv (Stored_Errored (\<lambda>c. c) ''p1'' 2 NewStoredPeerBehaviour) \<and>
   error_log (Stored_Errored (\<lambda>c. c) ''p1'' 2 NewStoredPeerBehaviour) ''p1'' = [2] \<and>
   returned (GetErrorBehaviours ''p1'' (Stored_Errored (\<lambda>c. c) ''p1'' 2 NewStoredPeerBehaviour)) = [2] \<and>
   slice_store (fst (GetErrorBehaviours ''p1'' (Stored_Errored (\<lambda>c. c) ''p1'' 2 NewStoredPeerBehaviour)))
       0 99 (mem (snd (GetErrorBehaviours ''p1'' (Stored_Errored (\<lambda>c. c) ''p1'' 2 NewStoredPeerBehaviour))))
     = Inr [ [2], [99] ] \<and>
   written_through (fst (GetErrorBehaviours ''p1'' (Stored_Errored (\<lambda>c. c) ''p1'' 2 NewStoredPeerBehaviour)))
       (mem (snd (GetErrorBehaviours ''p1'' (Stored_Errored (\<lambda>c. c) ''p1'' 2 NewStoredPeerBehaviour))))
       [ [2], [99] ] \<and>
   written_through (fst (GetGoodBehaviours ''p1'' (Stored_Errored (\<lambda>c. c) ''p1'' 2 NewStoredPeerBehaviour)))
       (mem (snd (GetGoodBehaviours ''p1'' (Stored_Errored (\<lambda>c. c) ''p1'' 2 NewStoredPeerBehaviour))))
       [ [2], [99] ] \<and>
   error_log (snd (GetErrorBehaviours ''p1'' (Stored_Errored (\<lambda>c. c) ''p1'' 2 NewStoredPeerBehaviour))
          \<lparr>mem := [ [2], [99] ]\<rparr>) ''p1'' = [2] \<and>
   returned (GetErrorBehaviours ''p1''
       (snd (GetErrorBehaviours ''p1'' (Stored_Errored (\<lambda>c. c) ''p1'' 2 NewStoredPeerBehaviour))
          \<lparr>mem := [ [2], [99] ]\<rparr>)) = [2] \<and>
   returned (GetGoodBehaviours ''p1''
       (snd (GetGoodBehaviours ''p1'' (Stored_Errored (\<lambda>c. c) ''p1'' 2 NewStoredPeerBehaviour))
          \<lparr>mem := [ [2], [99] ]\<rparr>)) = []"
proof -
  let ?spb = "Stored_Errored (\<lambda>c. c) ''p1'' 2 (NewStoredPeerBehaviour :: string StoredPeerBehaviour)"
  have inv: "spb_inv ?spb"
    by (rule Stored_Errored_step(1) [OF spb_inv_New])
  have spb: "?spb = \<lparr>eb = [''p1'' \<mapsto> \<lparr>ptr = 0, len = 1, cap = 1\<rparr>], gb = Map.empty, mem = [ [2] ]\<rparr>"
    by (simp add: Stored_Errored_def NewStoredPeerBehaviour_def slice_lit_def alloc_def)
  have e: "GetErrorBehaviours ''p1'' ?spb = (\<lparr>ptr = 1, len = 1, cap = 1\<rparr>, ?spb\<lparr>mem := [ [2], [2] ]\<rparr>)"
    unfolding spb by (simp add: GetErrorBehaviours_def make_slice_def alloc_def copy_slice_def)
  have g: "GetGoodBehaviours ''p1'' ?spb = (\<lparr>ptr = 1, len = 0, cap = 0\<rparr>, ?spb\<lparr>mem := [ [2], [] ]\<rparr>)"
    unfolding spb by (simp add: GetGoodBehaviours_def slice_lit_def alloc_def)
  have st: "slice_store \<lparr>ptr = 1, len = 1, cap = 1\<rparr> 0 99 [ [2], [2] ] = Inr [ [2], [99] ]"
    by (simp add: slice_store_def)
  have we: "written_through \<lparr>ptr = 1, len = 1, cap = 1\<rparr> [ [2], [2] ] [ [2], [99] ]"
    and wg: "written_through \<lparr>ptr = 1, len = 0, cap = 0\<rparr> [ [2], [] ] [ [2], [99] ]"
    by (simp_all add: written_through_def less_Suc_eq)
  have el: "error_log ?spb ''p1'' = [2]" and gl: "good_log ?spb ''p1'' = []"
    unfolding spb by (simp_all add: error_log_def good_log_def slice_elems_def)
  note t = returned_slice_is_a_copy [OF inv, of "''p1''" "[ [2], [99] ]" "''p1''"]
  have w1: "written_through (fst (GetErrorBehaviours ''p1'' ?spb))
       (mem (snd (GetErrorBehaviours ''p1'' ?spb))) [ [2], [99] ]"
    and w2: "written_through (fst (GetGoodBehaviours ''p1'' ?spb))
       (mem (snd (GetGoodBehaviours ''p1'' ?spb))) [ [2], [99] ]"
    and s1: "slice_store (fst (GetErrorBehaviours ''p1'' ?spb)) 0 99
       (mem (snd (GetErrorBehaviours ''p1'' ?spb))) = Inr [ [2], [99] ]"
    unfolding e g using we wg st by simp_all
  from t w1 w2 have
    "returned (GetErrorBehaviours ''p1'' ?spb) = error_log ?spb ''p1''"
    "error_log (snd (GetErrorBehaviours ''p1'' ?spb)\<lparr>mem := [ [2], [99] ]\<rparr>) = error_log ?spb"
    "returned (GetErrorBehaviours ''p1'' (snd (GetErrorBehaviours ''p1'' ?spb)\<lparr>mem := [ [2], [99] ]\<rparr>))
       = error_log ?spb ''p1''"
    "returned (GetGoodBehaviours ''p1'' (snd (GetGoodBehaviours ''p1'' ?spb)\<lparr>mem := [ [2], [99] ]\<rparr>))
       = good_log ?spb ''p1''"
    by blast+
  with inv el gl w1 w2 s1 show ?thesis by simp
qed

text \<open>
  C6. A getter called for a peer with no entry in its map returns an empty slice (of
  length 0, not an undefined value); and after any sequence of reports on a fresh
  StoredPeerBehaviour, a peer with no Errored report reads an empty error sequence and a
  peer with no Behaved report reads an empty good sequence.
\<close>

theorem no_reports_reads_empty:
  "(eb spb p = None \<longrightarrow>
      returned (GetErrorBehaviours p spb) = [] \<and> len (fst (GetErrorBehaviours p spb)) = 0) \<and>
   (gb spb p = None \<longrightarrow>
      returned (GetGoodBehaviours p spb) = [] \<and> len (fst (GetGoodBehaviours p spb)) = 0) \<and>
   (errors_for p rs = [] \<longrightarrow>
      returned (GetErrorBehaviours p (issue_all spare rs NewStoredPeerBehaviour)) = []) \<and>
   (goods_for p rs = [] \<longrightarrow>
      returned (GetGoodBehaviours p (issue_all spare rs NewStoredPeerBehaviour)) = [])"
proof -
  let ?spb = "issue_all spare rs NewStoredPeerBehaviour"
  note l = issue_all_logs [OF spb_inv_New, of spare rs p]
  have logs: "error_log ?spb p = errors_for p rs" "good_log ?spb p = goods_for p rs"
    using l by (simp_all add: error_log_def good_log_def NewStoredPeerBehaviour_def)
  have e: "returned (GetErrorBehaviours p spb) = [] \<and> len (fst (GetErrorBehaviours p spb)) = 0"
    if "eb spb p = None"
    by (simp add: GetErrorBehaviours_None [OF that] returned_def slice_elems_def)
  have g: "returned (GetGoodBehaviours p spb) = [] \<and> len (fst (GetGoodBehaviours p spb)) = 0"
    if "gb spb p = None"
    by (simp add: GetGoodBehaviours_None [OF that] returned_def slice_elems_def)
  have "returned (GetErrorBehaviours p ?spb) = errors_for p rs"
    and "returned (GetGoodBehaviours p ?spb) = goods_for p rs"
    using l logs by (simp_all add: GetErrorBehaviours_returned GetGoodBehaviours_returned)
  with e g show ?thesis by simp
qed

theorem no_reports_reads_empty_witness:
  "eb (NewStoredPeerBehaviour :: string StoredPeerBehaviour) ''p2'' = None \<and>
   gb (NewStoredPeerBehaviour :: string StoredPeerBehaviour) ''p2'' = None \<and>
   errors_for ''p2'' [ReportErrored ''p1'' 2, ReportBehaved ''p2'' 100] = [] \<and>
   goods_for ''p2'' [ReportErrored ''p2'' 2, ReportBehaved ''p1'' 100] = [] \<and>
   returned (GetErrorBehaviours ''p2'' NewStoredPeerBehaviour) = [] \<and>
   returned (GetGoodBehaviours ''p2'' NewStoredPeerBehaviour) = [] \<and>
   returned (GetErrorBehaviours ''p2''
      (issue_all (\<lambda>c. c) [ReportErrored ''p1'' 2, ReportBehaved ''p2'' 100] NewStoredPeerBehaviour)) = [] \<and>
   returned (GetGoodBehaviours ''p2''
      (issue_all (\<lambda>c. c) [ReportErrored ''p2'' 2, ReportBehaved ''p1'' 100] NewStoredPeerBehaviour)) = []"
proof -
  have none: "eb (NewStoredPeerBehaviour :: string StoredPeerBehaviour) ''p2'' = None"
    "gb (NewStoredPeerBehaviour :: string StoredPeerBehaviour) ''p2'' = None"
    by (simp_all add: NewStoredPeerBehaviour_def)
  from no_reports_reads_empty [of "NewStoredPeerBehaviour" "''p2''"
      "[ReportErrored ''p1'' 2, ReportBehaved ''p2'' 100]" "\<lambda>c. c"]
    no_reports_reads_empty [of "NewStoredPeerBehaviour" "''p2''"
      "[ReportErrored ''p2'' 2, ReportBehaved ''p1'' 100]" "\<lambda>c. c"] none
  show ?thesis by simp
qed

text \<open>
  C7. \<open>Errored\<close> and \<open>Behaved\<close> of StoredPeerBehaviour have no result and no failing
  operation, so the model has no error value to return. In every well-formed state (every
  reachable state is one, by \<open>reachable_inv\<close>), for
  every peer and every reason, the call leaves a well-formed state in which the peer's
  log is the former log with the reason appended; for a peer with no entry the log is
  then the reason alone. No property of the peer is checked.
\<close>

theorem stored_reports_always_accepted:
  assumes "spb_inv spb"
  shows "spb_inv (Stored_Errored spare p r spb) \<and>
     returned (GetErrorBehaviours p (Stored_Errored spare p r spb))
       = returned (GetErrorBehaviours p spb) @ [r] \<and>
     (eb spb p = None \<longrightarrow> returned (GetErrorBehaviours p (Stored_Errored spare p r spb)) = [r]) \<and>
     spb_inv (Stored_Behaved spare p g spb) \<and>
     returned (GetGoodBehaviours p (Stored_Behaved spare p g spb))
       = returned (GetGoodBehaviours p spb) @ [g] \<and>
     (gb spb p = None \<longrightarrow> returned (GetGoodBehaviours p (Stored_Behaved spare p g spb)) = [g])"
proof -
  note e = Stored_Errored_step(1) [OF assms, of spare p r]
  note b = Stored_Behaved_step(1) [OF assms, of spare p g]
  have "eb spb p = None \<Longrightarrow> error_log spb p = []" "gb spb p = None \<Longrightarrow> good_log spb p = []"
    by (simp_all add: error_log_def good_log_def)
  then show ?thesis using e b
    by (simp add: GetErrorBehaviours_returned GetGoodBehaviours_returned assms
        Stored_Errored_logs(1) [OF assms] Stored_Behaved_logs(1) [OF assms])
qed

theorem stored_reports_always_accepted_witness:
  "spb_inv (NewStoredPeerBehaviour :: string StoredPeerBehaviour) \<and>
   eb (NewStoredPeerBehaviour :: string StoredPeerBehaviour) ''never seen'' = None \<and>
   gb (NewStoredPeerBehaviour :: string StoredPeerBehaviour) ''never seen'' = None \<and>
   returned (GetErrorBehaviours ''never seen''
      (Stored_Errored (\<lambda>c. c) ''never seen'' 7 NewStoredPeerBehaviour)) = [7] \<and>
   returned (GetGoodBehaviours ''never seen''
      (Stored_Behaved (\<lambda>c. c) ''never seen'' 8 NewStoredPeerBehaviour)) = [8]"
proof -
  have none: "eb (NewStoredPeerBehaviour :: string StoredPeerBehaviour) ''never seen'' = None"
    "gb (NewStoredPeerBehaviour :: string StoredPeerBehaviour) ''never seen'' = None"
    by (simp_all add: NewStoredPeerBehaviour_def)
  have inv: "spb_inv (NewStoredPeerBehaviour :: string StoredPeerBehaviour)"
    by (rule spb_inv_New)
  from stored_reports_always_accepted [OF inv, of "\<lambda>c. c" "''never seen''" 7 8] inv none
  show ?thesis by blast
qed

text \<open>
  C8. The values of the GoodPeerBehaviour constants (100, 101) and of the
  ErrorPeerBehaviour constants (0, 1, 2) are pairwise distinct across the two sets.
\<close>

theorem behaviour_values_disjoint:
  "set good_behaviour_values \<inter> set error_behaviour_values = {}"
  by (simp add: good_behaviour_values_def error_behaviour_values_def
      GoodPeerBehaviourVote_def GoodPeerBehaviourBlockPart_def
      ErrorPeerBehaviourUnknown_def ErrorPeerBehaviourBadMessage_def
      ErrorPeerBehaviourMessageOutofOrder_def)

text \<open>
  C10. The getters are pure reads. After any sequence of getter calls both maps are what
  they were (no key is created for an absent peer), every array that existed is
  unchanged (a getter only allocates), and in a well-formed state every getter returns
  what it would have returned before the sequence.
\<close>

theorem getters_are_pure_reads:
  "eb (ask_all qs spb) = eb spb \<and> gb (ask_all qs spb) = gb spb \<and>
   take (length (mem spb)) (mem (ask_all qs spb)) = mem spb \<and>
   (spb_inv spb \<longrightarrow> returned (ask q (ask_all qs spb)) = returned (ask q spb))"
proof -
  have "returned (ask q (ask_all qs spb)) = returned (ask q spb)" if inv: "spb_inv spb"
    using ask_all_keeps [OF inv, of qs] by (cases q) (simp_all add: GetErrorBehaviours_returned GetGoodBehaviours_returned inv)
  then show ?thesis using ask_all_maps [of qs spb] by simp
qed


theorem getters_are_pure_reads_witness:
  "spb_inv (Stored_Errored (\<lambda>c. c) ''p1'' 2 NewStoredPeerBehaviour) \<and>
   eb (ask_all [AskErrors ''p2'', AskGoods ''p1'', AskErrors ''p1'']
         (Stored_Errored (\<lambda>c. c) ''p1'' 2 NewStoredPeerBehaviour)) ''p2'' = None \<and>
   returned (ask (AskErrors ''p1'') (ask_all [AskErrors ''p2'', AskGoods ''p1'', AskErrors ''p1'']
         (Stored_Errored (\<lambda>c. c) ''p1'' 2 NewStoredPeerBehaviour))) = [2]"
proof -
  let ?spb = "Stored_Errored (\<lambda>c. c) ''p1'' 2 (NewStoredPeerBehaviour :: string StoredPeerBehaviour)"
  have inv: "spb_inv ?spb"
    by (rule Stored_Errored_step(1) [OF spb_inv_New])
  have e: "eb ?spb ''p2'' = None" and r: "returned (ask (AskErrors ''p1'') ?spb) = [2]"
    by (simp_all add: Stored_Errored_def NewStoredPeerBehaviour_def slice_lit_def alloc_def
        GetErrorBehaviours_def make_slice_def copy_slice_def returned_def slice_elems_def)
  from getters_are_pure_reads [of "[AskErrors ''p2'', AskGoods ''p1'', AskErrors ''p1'']" ?spb
      "AskErrors ''p1''"] inv e r
  show ?thesis by simp
qed

end
